theory Spec2Isabelle
  imports Complex_Main "HOL-Library.AList"
begin

section \<open>Python values and their operations\<close>

text \<open>
  The handlers of \<^verbatim>\<open>app.py\<close> receive \<^verbatim>\<open>request.json\<close>: whatever JSON value the
  client sent, decoded into Python (\<^verbatim>\<open>None\<close> when there is none). A decoded \<^verbatim>\<open>dict\<close> is
  an association list with one binding for each key. Decoded numbers are the integers;
  the only floats of the model are the similarity scores, which are reals.
\<close>

datatype json =
    JNull
  | JBool bool
  | JInt int
  | JStr string
  | JArr "json list"
  | JObj "(string \<times> json) list"

datatype pyerror =
    TypeError string
  | AttributeError string
  | KeyError string
  | ServiceError string

text \<open>\<^verbatim>\<open>str(e)\<close>\<close>

fun str_of_error :: "pyerror \<Rightarrow> string" where
  "str_of_error (TypeError s) = s"
| "str_of_error (AttributeError s) = s"
| "str_of_error (KeyError s) = s"
| "str_of_error (ServiceError s) = s"

text \<open>Truth value testing, as \<^verbatim>\<open>not data\<close> and \<^verbatim>\<open>if context:\<close> use it.\<close>

fun truthy :: "json \<Rightarrow> bool" where
  "truthy JNull = False"
| "truthy (JBool b) = b"
| "truthy (JInt n) = (n \<noteq> 0)"
| "truthy (JStr s) = (s \<noteq> [])"
| "truthy (JArr xs) = (xs \<noteq> [])"
| "truthy (JObj kvs) = (kvs \<noteq> [])"

text \<open>\<^verbatim>\<open>p in s\<close> on two strings: \<open>p\<close> occurs in \<open>s\<close> as a contiguous piece.\<close>

fun str_contains :: "string \<Rightarrow> string \<Rightarrow> bool" where
  "str_contains p [] = (p = [])"
| "str_contains p (c # cs) = (take (length p) (c # cs) = p \<or> str_contains p cs)"

text \<open>
  \<^verbatim>\<open>k in d\<close> for a string \<open>k\<close>: a key of a dict, an element of a list, a piece of a
  string; any other operand is not iterable.
\<close>

fun py_contains :: "string \<Rightarrow> json \<Rightarrow> pyerror + bool" where
  "py_contains k (JObj kvs) = Inr (k \<in> fst ` set kvs)"
| "py_contains k (JArr xs) = Inr (JStr k \<in> set xs)"
| "py_contains k (JStr s) = Inr (str_contains k s)"
| "py_contains k _ = Inl (TypeError ''argument is not iterable'')"

text \<open>\<^verbatim>\<open>d[k]\<close> for a string \<open>k\<close>.\<close>

fun py_getitem :: "json \<Rightarrow> string \<Rightarrow> pyerror + json" where
  "py_getitem (JObj kvs) k =
     (case map_of kvs k of None \<Rightarrow> Inl (KeyError k) | Some v \<Rightarrow> Inr v)"
| "py_getitem _ k = Inl (TypeError ''indices must be integers'')"

text \<open>\<^verbatim>\<open>d.get(k, default)\<close>: only a dict has the method.\<close>

fun py_get :: "json \<Rightarrow> string \<Rightarrow> json \<Rightarrow> pyerror + json" where
  "py_get (JObj kvs) k d = Inr (case map_of kvs k of None \<Rightarrow> d | Some v \<Rightarrow> v)"
| "py_get _ k d = Inl (AttributeError ''object has no attribute get'')"

text \<open>\<^verbatim>\<open>d[k] = v\<close> for a string \<open>k\<close>.\<close>

fun py_setitem :: "json \<Rightarrow> string \<Rightarrow> json \<Rightarrow> pyerror + json" where
  "py_setitem (JObj kvs) k v = Inr (JObj (AList.update k v kvs))"
| "py_setitem _ k v = Inl (TypeError ''object does not support item assignment'')"

text \<open>
  Keys of the session dict. Lists and dicts are unhashable; \<^verbatim>\<open>True\<close> and \<^verbatim>\<open>1\<close>
  (and \<^verbatim>\<open>False\<close> and \<^verbatim>\<open>0\<close>) are equal with equal hashes, so they are one key.
\<close>

datatype key = KNone | KInt int | KStr string

fun hash_key :: "json \<Rightarrow> pyerror + key" where
  "hash_key JNull = Inr KNone"
| "hash_key (JBool b) = Inr (KInt (if b then 1 else 0))"
| "hash_key (JInt n) = Inr (KInt n)"
| "hash_key (JStr s) = Inr (KStr s)"
| "hash_key _ = Inl (TypeError ''unhashable type'')"

text \<open>
  \<^verbatim>\<open>xs[-n:]\<close> for a positive \<open>n\<close>: the last \<open>n\<close> elements, the whole list when it has
  fewer.
\<close>

definition last_n :: "nat \<Rightarrow> 'a list \<Rightarrow> 'a list" where
  "last_n n xs = drop (length xs - n) xs"

text \<open>\<^verbatim>\<open>"\n\n".join(docs)\<close>: every item has to be a string.\<close>

fun str_items :: "json list \<Rightarrow> pyerror + string list" where
  "str_items [] = Inr []"
| "str_items (JStr s # xs) =
     (case str_items xs of Inl e \<Rightarrow> Inl e | Inr ss \<Rightarrow> Inr (s # ss))"
| "str_items (_ # xs) = Inl (TypeError ''sequence item: expected str instance'')"

fun join_with :: "string \<Rightarrow> string list \<Rightarrow> string" where
  "join_with sep [] = []"
| "join_with sep [s] = s"
| "join_with sep (s # t # ss) = s @ sep @ join_with sep (t # ss)"

definition py_join :: "string \<Rightarrow> json list \<Rightarrow> pyerror + string" where
  "py_join sep xs =
     (case str_items xs of Inl e \<Rightarrow> Inl e | Inr ss \<Rightarrow> Inr (join_with sep ss))"

section \<open>Messages, external services and the trace of calls to them\<close>

datatype role = System | User | Assistant

record message =
  role :: role
  content :: json

record query_match =
  score :: real
  match_metadata :: json

record knowledge_record =
  rec_id :: string
  rec_values :: "real list"
  rec_metadata :: json

text \<open>
  What the outside world answers during one request: the index handle that
  \<^verbatim>\<open>VectorDBClient.__init__\<close> left behind, the embedding model, the Pinecone index and
  the completion endpoint. Each external operation either raises or returns.
\<close>

record services =
  index_present :: bool
  encode :: "json \<Rightarrow> pyerror + real list"
  index_query :: "real list \<Rightarrow> json \<Rightarrow> pyerror + query_match list"
  index_upsert :: "knowledge_record \<Rightarrow> pyerror + unit"
  completions_create :: "message list \<Rightarrow> pyerror + json"

text \<open>The external calls a function makes, in the order it makes them.\<close>

datatype call =
    Encode json
  | Query "real list" json
  | Upsert knowledge_record
  | Complete "message list"

fun is_encode :: "call \<Rightarrow> bool" where
  "is_encode (Encode _) = True"
| "is_encode _ = False"

fun is_complete :: "call \<Rightarrow> bool" where
  "is_complete (Complete _) = True"
| "is_complete _ = False"

section \<open>config.py\<close>

definition newline :: string where
  "newline = [CHR 0x0A]"

definition SYSTEM_PROMPT :: string where
  "SYSTEM_PROMPT =
     ''You are Jarvis, an intelligent AI assistant created to help users with their questions and tasks.''
     @ newline @
     ''You are helpful, harmless, and honest. You provide accurate, contextual responses.''
     @ newline @
     ''When given context from the knowledge base, use it to provide more relevant answers.''
     @ newline @
     ''If you don'' @ [CHR 0x27] @ ''t know something, admit it rather than making things up.''"

section \<open>llm_client.py\<close>

text \<open>Lines 33 to 47 of \<^verbatim>\<open>LLMClient.chat\<close>: the message list, built before the \<^verbatim>\<open>try\<close>.\<close>

definition system_content :: "string option \<Rightarrow> string" where
  "system_content context =
     (case context of
        None \<Rightarrow> SYSTEM_PROMPT
      | Some c \<Rightarrow>
          if c \<noteq> [] then
            SYSTEM_PROMPT @ newline @ newline @ ''Relevant knowledge from the database:''
              @ newline @ c
          else SYSTEM_PROMPT)"

definition build_messages ::
  "json \<Rightarrow> string option \<Rightarrow> message list option \<Rightarrow> message list" where
  "build_messages user_message context conversation_history =
     (let messages = [];
          messages = messages @ [\<lparr>role = System, content = JStr (system_content context)\<rparr>];
          messages = (case conversation_history of
                        None \<Rightarrow> messages
                      | Some h \<Rightarrow> if h \<noteq> [] then messages @ h else messages);
          messages = messages @ [\<lparr>role = User, content = user_message\<rparr>]
      in messages)"

text \<open>
  \<^verbatim>\<open>LLMClient.chat\<close>: the request to the completion service is the body of the
  \<^verbatim>\<open>try\<close>; \<^verbatim>\<open>except Exception\<close> turns whatever it raises into the reply text.
\<close>

definition LLMClient_chat ::
  "services \<Rightarrow> json \<Rightarrow> string option \<Rightarrow> message list option \<Rightarrow> (pyerror + json) \<times> call list" where
  "LLMClient_chat sv user_message context conversation_history =
     (let messages = build_messages user_message context conversation_history
      in (case completions_create sv messages of
            Inr text \<Rightarrow> Inr text
          | Inl e \<Rightarrow> Inr (JStr (''Error communicating with LLM: '' @ str_of_error e)),
          [Complete messages]))"

section \<open>vector_db.py\<close>

text \<open>
  \<^verbatim>\<open>_generate_id\<close>: \<^verbatim>\<open>hashlib.md5(text.encode()).hexdigest()\<close>. The two library
  functions are parameters: \<open>str_encode\<close> gives the UTF-8 encoding of a string or raises
  (a lone surrogate cannot be encoded), \<open>md5_hexdigest\<close> gives the hexadecimal digest of
  the encoded bytes. Only a string has \<^verbatim>\<open>encode\<close>.
\<close>

record hashlib =
  str_encode :: "string \<Rightarrow> pyerror + string"
  md5_hexdigest :: "string \<Rightarrow> string"

fun generate_id :: "hashlib \<Rightarrow> json \<Rightarrow> pyerror + string" where
  "generate_id lib (JStr s) =
     (case str_encode lib s of Inl e \<Rightarrow> Inl e | Inr bytes \<Rightarrow> Inr (md5_hexdigest lib bytes))"
| "generate_id lib _ = Inl (AttributeError ''object has no attribute encode'')"

text \<open>
  \<^verbatim>\<open>add_knowledge\<close>: \<open>False\<close> without an index; otherwise the \<^verbatim>\<open>try\<close> computes the id,
  the embedding and the metadata with its \<^verbatim>\<open>text\<close> entry and upserts the record, and
  \<^verbatim>\<open>except Exception\<close> answers \<open>False\<close>.
\<close>

definition VectorDB_add_knowledge ::
  "hashlib \<Rightarrow> services \<Rightarrow> json \<Rightarrow> json \<Rightarrow> (pyerror + bool) \<times> call list" where
  "VectorDB_add_knowledge lib sv text metadata =
     (if \<not> index_present sv then (Inr False, [])
      else
        case generate_id lib text of
          Inl e \<Rightarrow> (Inr False, [])
        | Inr doc_id \<Rightarrow>
            (case encode sv text of
               Inl e \<Rightarrow> (Inr False, [Encode text])
             | Inr embedding \<Rightarrow>
                 (let meta = (if truthy metadata then metadata else JObj [])
                  in case py_setitem meta ''text'' text of
                       Inl e \<Rightarrow> (Inr False, [Encode text])
                     | Inr meta' \<Rightarrow>
                         (let r = \<lparr>rec_id = doc_id, rec_values = embedding,
                                   rec_metadata = meta'\<rparr>
                          in case index_upsert sv r of
                               Inl e \<Rightarrow> (Inr False, [Encode text, Upsert r])
                             | Inr u \<Rightarrow> (Inr True, [Encode text, Upsert r])))))"

text \<open>The loop of \<^verbatim>\<open>search\<close> over \<^verbatim>\<open>results.matches\<close>, with \<^verbatim>\<open>texts\<close> as accumulator.\<close>

fun collect_texts :: "query_match list \<Rightarrow> json list \<Rightarrow> pyerror + json list" where
  "collect_texts [] texts = Inr texts"
| "collect_texts (m # ms) texts =
     (if score m > 0.5 then
        (case py_contains ''text'' (match_metadata m) of
           Inl e \<Rightarrow> Inl e
         | Inr False \<Rightarrow> collect_texts ms texts
         | Inr True \<Rightarrow>
             (case py_getitem (match_metadata m) ''text'' of
                Inl e \<Rightarrow> Inl e
              | Inr t \<Rightarrow> collect_texts ms (texts @ [t])))
      else collect_texts ms texts)"

definition VectorDB_search ::
  "services \<Rightarrow> json \<Rightarrow> json \<Rightarrow> (pyerror + json list) \<times> call list" where
  "VectorDB_search sv query top_k =
     (if \<not> index_present sv then (Inr [], [])
      else
        case encode sv query of
          Inl e \<Rightarrow> (Inr [], [Encode query])
        | Inr query_embedding \<Rightarrow>
            (case index_query sv query_embedding top_k of
               Inl e \<Rightarrow> (Inr [], [Encode query, Query query_embedding top_k])
             | Inr matches \<Rightarrow>
                 (case collect_texts matches [] of
                    Inl e \<Rightarrow> (Inr [], [Encode query, Query query_embedding top_k])
                  | Inr texts \<Rightarrow> (Inr texts, [Encode query, Query query_embedding top_k]))))"

definition is_configured :: "services \<Rightarrow> bool" where
  "is_configured sv = index_present sv"

section \<open>app.py\<close>

record response =
  status :: nat
  body :: json

type_synonym conversations = "key \<rightharpoonup> message list"

text \<open>An exception that leaves a handler is answered by the framework with status 500.\<close>

fun http_status :: "pyerror + response \<Rightarrow> nat" where
  "http_status (Inl e) = 500"
| "http_status (Inr r) = status r"

text \<open>Lines 80 to 85 of \<^verbatim>\<open>chat\<close>: the context from the knowledge base.\<close>

definition retrieve_context ::
  "services \<Rightarrow> json \<Rightarrow> json \<Rightarrow> (pyerror + string option) \<times> call list" where
  "retrieve_context sv use_knowledge user_message =
     (if truthy use_knowledge \<and> is_configured sv then
        (case VectorDB_search sv user_message (JInt 3) of
           (Inl e, cs) \<Rightarrow> (Inl e, cs)
         | (Inr relevant_docs, cs) \<Rightarrow>
             if relevant_docs \<noteq> [] then
               (case py_join (newline @ newline) relevant_docs of
                  Inl e \<Rightarrow> (Inl e, cs)
                | Inr c \<Rightarrow> (Inr (Some c), cs))
             else (Inr None, cs))
      else (Inr None, []))"

text \<open>
  Lines 74 to 106 of \<^verbatim>\<open>chat\<close>, for the session key \<open>k\<close> of \<open>session_id\<close>. The two
  appends change the list that the dict holds; the truncation stores a new list.
\<close>

definition chat_session ::
  "services \<Rightarrow> json \<Rightarrow> json \<Rightarrow> key \<Rightarrow> json \<Rightarrow> conversations \<Rightarrow>
     (pyerror + response) \<times> conversations \<times> call list" where
  "chat_session sv user_message session_id k use_knowledge conversations =
     (let conversations = (if conversations k = None then conversations(k \<mapsto> [])
                           else conversations);
          conversation_history = (case conversations k of None \<Rightarrow> [] | Some h \<Rightarrow> h)
      in case retrieve_context sv use_knowledge user_message of
           (Inl e, cs1) \<Rightarrow> (Inl e, conversations, cs1)
         | (Inr context, cs1) \<Rightarrow>
             (case LLMClient_chat sv user_message context
                     (Some (last_n 10 conversation_history)) of
                (Inl e, cs2) \<Rightarrow> (Inl e, conversations, cs1 @ cs2)
              | (Inr reply, cs2) \<Rightarrow>
                  (let conversation_history =
                         conversation_history @ [\<lparr>role = User, content = user_message\<rparr>];
                       conversation_history =
                         conversation_history @ [\<lparr>role = Assistant, content = reply\<rparr>];
                       conversations = conversations(k \<mapsto> conversation_history);
                       conversations =
                         (if length conversation_history > 20
                          then conversations(k \<mapsto> last_n 20 conversation_history)
                          else conversations)
                   in (Inr \<lparr>status = 200,
                             body = JObj [(''response'', reply),
                                          (''context_used'', JBool (context \<noteq> None)),
                                          (''session_id'', session_id)]\<rparr>,
                       conversations, cs1 @ cs2))))"

text \<open>\<^verbatim>\<open>POST /api/chat\<close>\<close>

definition chat ::
  "services \<Rightarrow> json \<Rightarrow> conversations \<Rightarrow> (pyerror + response) \<times> conversations \<times> call list" where
  "chat sv data conversations =
     (if \<not> truthy data then
        (Inr \<lparr>status = 400, body = JObj [(''error'', JStr ''Message is required'')]\<rparr>,
         conversations, [])
      else
        case py_contains ''message'' data of
          Inl e \<Rightarrow> (Inl e, conversations, [])
        | Inr False \<Rightarrow>
            (Inr \<lparr>status = 400, body = JObj [(''error'', JStr ''Message is required'')]\<rparr>,
             conversations, [])
        | Inr True \<Rightarrow>
            (case py_getitem data ''message'' of
               Inl e \<Rightarrow> (Inl e, conversations, [])
             | Inr user_message \<Rightarrow>
                 (case py_get data ''session_id'' (JStr ''default'') of
                    Inl e \<Rightarrow> (Inl e, conversations, [])
                  | Inr session_id \<Rightarrow>
                      (case py_get data ''use_knowledge'' (JBool True) of
                         Inl e \<Rightarrow> (Inl e, conversations, [])
                       | Inr use_knowledge \<Rightarrow>
                           (case hash_key session_id of
                              Inl e \<Rightarrow> (Inl e, conversations, [])
                            | Inr k \<Rightarrow>
                                chat_session sv user_message session_id k use_knowledge
                                  conversations)))))"

text \<open>\<^verbatim>\<open>POST /api/knowledge\<close>\<close>

definition not_configured_response :: response where
  "not_configured_response =
     \<lparr>status = 503,
      body = JObj [(''error'', JStr ''Vector database not configured''),
                   (''hint'', JStr ''Please set your PINECONE_API_KEY in the .env file'')]\<rparr>"

definition add_knowledge ::
  "hashlib \<Rightarrow> services \<Rightarrow> json \<Rightarrow> (pyerror + response) \<times> call list" where
  "add_knowledge lib sv data =
     (if \<not> truthy data then
        (Inr \<lparr>status = 400, body = JObj [(''error'', JStr ''Text is required'')]\<rparr>, [])
      else
        case py_contains ''text'' data of
          Inl e \<Rightarrow> (Inl e, [])
        | Inr False \<Rightarrow>
            (Inr \<lparr>status = 400, body = JObj [(''error'', JStr ''Text is required'')]\<rparr>, [])
        | Inr True \<Rightarrow>
            if \<not> is_configured sv then (Inr not_configured_response, [])
            else
              (case py_getitem data ''text'' of
                 Inl e \<Rightarrow> (Inl e, [])
               | Inr text \<Rightarrow>
                   (case py_get data ''metadata'' (JObj []) of
                      Inl e \<Rightarrow> (Inl e, [])
                    | Inr metadata \<Rightarrow>
                        (case VectorDB_add_knowledge lib sv text metadata of
                           (Inl e, cs) \<Rightarrow> (Inl e, cs)
                         | (Inr success, cs) \<Rightarrow>
                             if success then
                               (Inr \<lparr>status = 200,
                                      body = JObj [(''status'', JStr ''success''),
                                                   (''message'',
                                                    JStr ''Knowledge added successfully'')]\<rparr>,
                                cs)
                             else
                               (Inr \<lparr>status = 500,
                                      body = JObj [(''error'',
                                                    JStr ''Failed to add knowledge'')]\<rparr>,
                                cs)))))"

text \<open>\<^verbatim>\<open>POST /api/knowledge/search\<close>\<close>

definition search_knowledge :: "services \<Rightarrow> json \<Rightarrow> (pyerror + response) \<times> call list" where
  "search_knowledge sv data =
     (if \<not> truthy data then
        (Inr \<lparr>status = 400, body = JObj [(''error'', JStr ''Query is required'')]\<rparr>, [])
      else
        case py_contains ''query'' data of
          Inl e \<Rightarrow> (Inl e, [])
        | Inr False \<Rightarrow>
            (Inr \<lparr>status = 400, body = JObj [(''error'', JStr ''Query is required'')]\<rparr>, [])
        | Inr True \<Rightarrow>
            if \<not> is_configured sv then (Inr not_configured_response, [])
            else
              (case py_getitem data ''query'' of
                 Inl e \<Rightarrow> (Inl e, [])
               | Inr query \<Rightarrow>
                   (case py_get data ''top_k'' (JInt 3) of
                      Inl e \<Rightarrow> (Inl e, [])
                    | Inr top_k \<Rightarrow>
                        (case VectorDB_search sv query top_k of
                           (Inl e, cs) \<Rightarrow> (Inl e, cs)
                         | (Inr results, cs) \<Rightarrow>
                             (Inr \<lparr>status = 200,
                                    body = JObj [(''results'', JArr results),
                                                 (''count'', JInt (int (length results)))]\<rparr>,
                              cs)))))"

text \<open>\<^verbatim>\<open>POST /api/session/clear\<close>\<close>

text \<open>Line 175: \<^verbatim>\<open>data.get('session_id', 'default') if data else 'default'\<close>\<close>

definition requested_session :: "json \<Rightarrow> pyerror + json" where
  "requested_session data =
     (if truthy data then py_get data ''session_id'' (JStr ''default'')
      else Inr (JStr ''default''))"

definition clear_session :: "json \<Rightarrow> conversations \<Rightarrow> (pyerror + response) \<times> conversations" where
  "clear_session data conversations =
     (case requested_session data of
        Inl e \<Rightarrow> (Inl e, conversations)
      | Inr session_id \<Rightarrow>
          (case hash_key session_id of
             Inl e \<Rightarrow> (Inl e, conversations)
           | Inr k \<Rightarrow>
               (Inr \<lparr>status = 200,
                      body = JObj [(''status'', JStr ''success''),
                                   (''message'', JStr ''Session cleared'')]\<rparr>,
                if conversations k \<noteq> None then conversations(k := None)
                else conversations)))"

section \<open>Sequences of requests\<close>

text \<open>
  The session dict lives as long as the process. A run applies requests one after the
  other, each with the answers the services give during it.
\<close>

datatype request = Chat services json | Clear json

fun step :: "request \<Rightarrow> conversations \<Rightarrow> conversations" where
  "step (Chat sv data) cs = fst (snd (chat sv data cs))"
| "step (Clear data) cs = snd (clear_session data cs)"

fun run :: "request list \<Rightarrow> conversations \<Rightarrow> conversations" where
  "run [] cs = cs"
| "run (r # rs) cs = run rs (step r cs)"

text \<open>A field of a JSON object, as a client reads it.\<close>

definition field :: "string \<Rightarrow> json \<Rightarrow> json" where
  "field k j = (case py_getitem j k of Inl e \<Rightarrow> JNull | Inr v \<Rightarrow> v)"

text \<open>
  What a chat call adds to the conversation of session \<open>k\<close>, read off the HTTP exchange:
  when the reply has status 200 and names session \<open>k\<close>, the message of the request and
  the \<^verbatim>\<open>response\<close> of the reply.
\<close>

definition exchange :: "services \<Rightarrow> json \<Rightarrow> conversations \<Rightarrow> key \<Rightarrow> message list" where
  "exchange sv data cs k =
     (case fst (chat sv data cs) of
        Inl e \<Rightarrow> []
      | Inr r \<Rightarrow>
          if status r = 200 \<and> hash_key (field ''session_id'' (body r)) = Inr k then
            [\<lparr>role = User, content = field ''message'' data\<rparr>,
             \<lparr>role = Assistant, content = field ''response'' (body r)\<rparr>]
          else [])"

text \<open>All the messages exchanged in session \<open>k\<close> during a run of chat calls, in call order.\<close>

fun transcript :: "(services \<times> json) list \<Rightarrow> conversations \<Rightarrow> key \<Rightarrow> message list" where
  "transcript [] cs k = []"
| "transcript ((sv, data) # rs) cs k =
     exchange sv data cs k @ transcript rs (fst (snd (chat sv data cs))) k"

fun chat_run :: "(services \<times> json) list \<Rightarrow> conversations \<Rightarrow> conversations" where
  "chat_run [] cs = cs"
| "chat_run ((sv, data) # rs) cs = chat_run rs (fst (snd (chat sv data cs)))"

text \<open>A conversation of whole exchanges: a user message, then the assistant's, and so on.\<close>

fun alternating :: "message list \<Rightarrow> bool" where
  "alternating [] = True"
| "alternating [m] = False"
| "alternating (u # a # ms) = (role u = User \<and> role a = Assistant \<and> alternating ms)"

text \<open>The invariant of the session dict.\<close>

definition well_formed :: "conversations \<Rightarrow> bool" where
  "well_formed cs = (\<forall>k h. cs k = Some h \<longrightarrow> alternating h \<and> length h \<le> 20)"

text \<open>
  The session \<open>k\<close> retains the messages \<open>msgs\<close>: it holds their last 20, or does not
  exist when there are none.
\<close>

definition retains :: "conversations \<Rightarrow> key \<Rightarrow> message list \<Rightarrow> bool" where
  "retains cs k msgs = (case cs k of None \<Rightarrow> msgs = [] | Some h \<Rightarrow> h = last_n 20 msgs)"


text \<open>
  The session that a request names, in the words of the specification: the
  \<^verbatim>\<open>session_id\<close> of its body, and the default session when the body is absent or empty
  or has no such field. A body that is neither an object nor empty names no session.
\<close>

fun session_named :: "json \<Rightarrow> json option" where
  "session_named (JObj kvs) =
     Some (case map_of kvs ''session_id'' of None \<Rightarrow> JStr ''default'' | Some sid \<Rightarrow> sid)"
| "session_named data = (if truthy data then None else Some (JStr ''default''))"




section \<open>The search of the specification\<close>

text \<open>
  The specification's search result for the matches the store returned: the stored text
  of every match that has one and scores above 0.5, in the order of the store.
\<close>

definition has_text :: "query_match \<Rightarrow> bool" where
  "has_text m = (py_contains ''text'' (match_metadata m) = Inr True)"

definition stored_text :: "query_match \<Rightarrow> json" where
  "stored_text m = field ''text'' (match_metadata m)"

definition texts_above_threshold :: "query_match list \<Rightarrow> json list" where
  "texts_above_threshold ms = map stored_text (filter (\<lambda>m. score m > 0.5 \<and> has_text m) ms)"

text \<open>
  A match on which the loop of \<^verbatim>\<open>search\<close> raises: it scores above 0.5 and its metadata
  cannot be tested for \<^verbatim>\<open>text\<close> or cannot be indexed by it.
\<close>

definition match_raises :: "query_match \<Rightarrow> bool" where
  "match_raises m =
     (score m > 0.5 \<and>
      (case py_contains ''text'' (match_metadata m) of
         Inl e \<Rightarrow> True
       | Inr b \<Rightarrow> b \<and> isl (py_getitem (match_metadata m) ''text'')))"

section \<open>Notions of the specification about requests\<close>

text \<open>
  A body passes the validation of a handler for the field \<open>k\<close> when the guard
  \<^verbatim>\<open>not data or k not in data\<close> is evaluated without an exception and is false.
\<close>

definition passes_validation :: "string \<Rightarrow> json \<Rightarrow> bool" where
  "passes_validation k data = (truthy data \<and> py_contains k data = Inr True)"

text \<open>
  A body lacks the field \<open>k\<close> when it is absent or is anything but an object with that
  field.
\<close>

definition lacks_field :: "string \<Rightarrow> json \<Rightarrow> bool" where
  "lacks_field k data = (case data of JObj kvs \<Rightarrow> k \<notin> fst ` set kvs | _ \<Rightarrow> True)"

text \<open>
  The bodies which the guard of \<^verbatim>\<open>chat\<close> answers with status 400: the values that
  count as false, and the objects, arrays and strings in which \<^verbatim>\<open>message\<close> does not
  occur.
\<close>

fun rejected :: "string \<Rightarrow> json \<Rightarrow> bool" where
  "rejected k JNull = True"
| "rejected k (JBool b) = (\<not> b)"
| "rejected k (JInt n) = (n = 0)"
| "rejected k (JStr s) = (\<not> str_contains k s)"
| "rejected k (JArr xs) = (JStr k \<notin> set xs)"
| "rejected k (JObj kvs) = (k \<notin> fst ` set kvs)"

text \<open>The history of a session, empty when the session does not exist.\<close>

definition history_of :: "conversations \<Rightarrow> key \<Rightarrow> message list" where
  "history_of cs k = (case cs k of None \<Rightarrow> [] | Some h \<Rightarrow> h)"

section \<open>Example services and requests\<close>

definition down_services :: services where
  "down_services =
     \<lparr>index_present = False,
      encode = (\<lambda>t. Inl (ServiceError ''no embedding model'')),
      index_query = (\<lambda>v k. Inl (ServiceError ''no index'')),
      index_upsert = (\<lambda>r. Inl (ServiceError ''no index'')),
      completions_create = (\<lambda>ms. Inl (ServiceError ''Connection error.''))\<rparr>"

definition demo_matches :: "query_match list" where
  "demo_matches =
     [\<lparr>score = 0.9, match_metadata = JObj [(''text'', JStr ''alpha'')]\<rparr>,
      \<lparr>score = 0.5, match_metadata = JObj [(''text'', JStr ''beta'')]\<rparr>,
      \<lparr>score = 0.7, match_metadata = JObj [(''source'', JStr ''wiki'')]\<rparr>,
      \<lparr>score = 0.6, match_metadata = JObj [(''text'', JStr ''gamma'')]\<rparr>]"

definition demo_services :: services where
  "demo_services =
     \<lparr>index_present = True,
      encode = (\<lambda>t. Inr [1, 0]),
      index_query = (\<lambda>v k. Inr demo_matches),
      index_upsert = (\<lambda>r. Inr ()),
      completions_create = (\<lambda>ms. Inr (JStr ''At your service.''))\<rparr>"

text \<open>
  A stand-in for the library: plain text is its own encoding, and the digests are the MD5
  digests of \<^verbatim>\<open>hello\<close> and of the empty text.
\<close>

definition demo_lib :: hashlib where
  "demo_lib =
     \<lparr>str_encode = (\<lambda>s. Inr s),
      md5_hexdigest = (\<lambda>bytes. if bytes = ''hello'' then ''5d41402abc4b2a76b9719d911017c592''
                               else ''d41d8cd98f00b204e9800998ecf8427e'')\<rparr>"

definition no_sessions :: conversations where
  "no_sessions = Map.empty"

definition hello :: json where
  "hello = JObj [(''message'', JStr ''hello''), (''use_knowledge'', JBool False)]"

definition hello_user :: message where
  "hello_user = \<lparr>role = User, content = JStr ''hello''\<rparr>"

definition demo_reply :: message where
  "demo_reply = \<lparr>role = Assistant, content = JStr ''At your service.''\<rparr>"

definition eleven_hellos :: "(services \<times> json) list" where
  "eleven_hellos = replicate 11 (demo_services, hello)"

definition s1_request :: json where
  "s1_request = JObj [(''message'', JStr ''hello''), (''session_id'', JStr ''s1''),
                      (''use_knowledge'', JBool False)]"

definition s1_clear :: json where
  "s1_clear = JObj [(''session_id'', JStr ''s1'')]"



definition other_clear :: json where
  "other_clear = JObj [(''session_id'', JStr ''other'')]"


section \<open>The loop of search\<close>

lemma collect_texts_step:
  "\<not> match_raises m \<Longrightarrow>
     collect_texts (m # ms) acc = collect_texts ms (acc @ texts_above_threshold [m])"
  by (auto simp: texts_above_threshold_def match_raises_def has_text_def stored_text_def
          field_def isl_def split: sum.splits bool.splits)

lemma collect_texts_stop:
  "match_raises m \<Longrightarrow> \<exists>e. collect_texts (m # ms) acc = Inl e"
  by (auto simp: match_raises_def isl_def split: sum.splits bool.splits)

lemma texts_above_threshold_Cons:
  "texts_above_threshold (m # ms) = texts_above_threshold [m] @ texts_above_threshold ms"
  by (simp add: texts_above_threshold_def)

lemma collect_texts_ok:
  "\<forall>m\<in>set ms. \<not> match_raises m \<Longrightarrow>
     collect_texts ms acc = Inr (acc @ texts_above_threshold ms)"
proof (induction ms arbitrary: acc)
  case Nil
  then show ?case by (simp add: texts_above_threshold_def)
next
  case (Cons m ms)
  have "collect_texts (m # ms) acc = collect_texts ms (acc @ texts_above_threshold [m])"
    by (rule collect_texts_step) (use Cons.prems in simp)
  also have "\<dots> = Inr ((acc @ texts_above_threshold [m]) @ texts_above_threshold ms)"
    using Cons.prems by (intro Cons.IH) simp
  finally show ?case
    by (simp add: texts_above_threshold_Cons [of m ms])
qed

lemma collect_texts_raises:
  "\<exists>m\<in>set ms. match_raises m \<Longrightarrow> \<exists>e. collect_texts ms acc = Inl e"
proof (induction ms arbitrary: acc)
  case Nil
  then show ?case by simp
next
  case (Cons m ms)
  show ?case
  proof (cases "match_raises m")
    case True
    then show ?thesis by (rule collect_texts_stop)
  next
    case False
    with Cons.prems have "\<exists>m\<in>set ms. match_raises m" by auto
    then have "\<exists>e. collect_texts ms (acc @ texts_above_threshold [m]) = Inl e"
      by (rule Cons.IH)
    then show ?thesis by (simp only: collect_texts_step [OF False])
  qed
qed

section \<open>Properties of the completion gateway\<close>

text \<open>
  C7. \<^verbatim>\<open>LLMClient.chat\<close> never raises: on every input it returns a reply, and when the
  call to the completion service raises, the reply is the text
  \<^verbatim>\<open>Error communicating with LLM: \<close> followed by the exception's message.
\<close>

theorem llm_chat_never_raises:
  "(\<exists>reply. fst (LLMClient_chat sv user_message context history) = Inr reply) \<and>
   (\<forall>e. completions_create sv (build_messages user_message context history) = Inl e \<longrightarrow>
      fst (LLMClient_chat sv user_message context history) =
        Inr (JStr (''Error communicating with LLM: '' @ str_of_error e)))"
  by (simp add: LLMClient_chat_def Let_def split: sum.splits)

theorem llm_chat_never_raises_witness:
  "fst (LLMClient_chat down_services (JStr ''hi'') None None) =
     Inr (JStr ''Error communicating with LLM: Connection error.'')"
  using llm_chat_never_raises [of down_services "JStr ''hi''" None None]
  by (simp add: down_services_def)

section \<open>Properties of the retrieval gateway\<close>

text \<open>
  C3. \<^verbatim>\<open>search\<close> never raises. Without an index, or when the embedding, the query or
  the reading of a match fails, it returns the empty list. Otherwise it returns the stored
  texts of the matches that score strictly above 0.5, in the order of the store; every
  text it returns is the stored text of a match with a score above 0.5, so a match that
  scores exactly 0.5 contributes none.
\<close>

theorem search_above_threshold:
  "(\<exists>texts. fst (VectorDB_search sv query top_k) = Inr texts) \<and>
   (\<not> is_configured sv \<longrightarrow> fst (VectorDB_search sv query top_k) = Inr []) \<and>
   (\<forall>e. encode sv query = Inl e \<longrightarrow> fst (VectorDB_search sv query top_k) = Inr []) \<and>
   (\<forall>v e. encode sv query = Inr v \<and> index_query sv v top_k = Inl e \<longrightarrow>
      fst (VectorDB_search sv query top_k) = Inr []) \<and>
   (\<forall>v ms. encode sv query = Inr v \<and> index_query sv v top_k = Inr ms \<and>
      (\<exists>m\<in>set ms. match_raises m) \<longrightarrow>
      fst (VectorDB_search sv query top_k) = Inr []) \<and>
   (\<forall>v ms. is_configured sv \<and> encode sv query = Inr v \<and> index_query sv v top_k = Inr ms \<and>
      (\<forall>m\<in>set ms. \<not> match_raises m) \<longrightarrow>
      fst (VectorDB_search sv query top_k) = Inr (texts_above_threshold ms)) \<and>
   (\<forall>v ms texts t. encode sv query = Inr v \<and> index_query sv v top_k = Inr ms \<and>
      fst (VectorDB_search sv query top_k) = Inr texts \<and> t \<in> set texts \<longrightarrow>
      (\<exists>m\<in>set ms. score m > 0.5 \<and> py_getitem (match_metadata m) ''text'' = Inr t))"
proof (intro conjI allI impI)
  show "\<exists>texts. fst (VectorDB_search sv query top_k) = Inr texts"
    by (simp add: VectorDB_search_def split: sum.splits)
  show "fst (VectorDB_search sv query top_k) = Inr []" if "\<not> is_configured sv"
    using that by (simp add: VectorDB_search_def is_configured_def)
  show "fst (VectorDB_search sv query top_k) = Inr []" if "encode sv query = Inl e" for e
    using that by (simp add: VectorDB_search_def)
  show "fst (VectorDB_search sv query top_k) = Inr []"
    if "encode sv query = Inr v \<and> index_query sv v top_k = Inl e" for v e
    using that by (simp add: VectorDB_search_def)
  show "fst (VectorDB_search sv query top_k) = Inr []"
    if h: "encode sv query = Inr v \<and> index_query sv v top_k = Inr ms \<and>
           (\<exists>m\<in>set ms. match_raises m)" for v ms
  proof -
    from h obtain e where "collect_texts ms [] = Inl e"
      using collect_texts_raises [of ms "[]"] by blast
    with h show ?thesis by (simp add: VectorDB_search_def)
  qed
  show "fst (VectorDB_search sv query top_k) = Inr (texts_above_threshold ms)"
    if h: "is_configured sv \<and> encode sv query = Inr v \<and> index_query sv v top_k = Inr ms \<and>
           (\<forall>m\<in>set ms. \<not> match_raises m)" for v ms
  proof -
    from h have "collect_texts ms [] = Inr ([] @ texts_above_threshold ms)"
      by (intro collect_texts_ok) simp
    with h show ?thesis by (simp add: VectorDB_search_def is_configured_def)
  qed
  show "\<exists>m\<in>set ms. score m > 0.5 \<and> py_getitem (match_metadata m) ''text'' = Inr t"
    if h: "encode sv query = Inr v \<and> index_query sv v top_k = Inr ms \<and>
           fst (VectorDB_search sv query top_k) = Inr texts \<and> t \<in> set texts" for v ms texts t
  proof (cases "\<exists>m\<in>set ms. match_raises m")
    case True
    then obtain e where "collect_texts ms [] = Inl e"
      using collect_texts_raises [of ms "[]"] by blast
    with h have "texts = []" by (auto simp: VectorDB_search_def split: if_splits)
    with h show ?thesis by simp
  next
    case False
    then have c: "collect_texts ms [] = Inr ([] @ texts_above_threshold ms)"
      by (intro collect_texts_ok) simp
    with h have "texts = [] \<or> texts = texts_above_threshold ms"
      by (auto simp: VectorDB_search_def split: if_splits)
    with h have "t \<in> set (texts_above_threshold ms)" by auto
    then obtain m where m: "m \<in> set ms" "score m > 0.5" "has_text m" "t = stored_text m"
      by (auto simp: texts_above_threshold_def)
    from False m have "\<not> match_raises m" by blast
    with m have "py_getitem (match_metadata m) ''text'' = Inr t"
      by (auto simp: match_raises_def has_text_def stored_text_def field_def isl_def
            split: sum.splits)
    with m show ?thesis by blast
  qed
qed

lemma demo_no_raise: "\<forall>m\<in>set demo_matches. \<not> match_raises m"
  by (simp add: demo_matches_def match_raises_def)

lemma demo_texts: "texts_above_threshold demo_matches = [JStr ''alpha'', JStr ''gamma'']"
  by (simp add: demo_matches_def texts_above_threshold_def has_text_def stored_text_def field_def)

theorem search_above_threshold_witness:
  "fst (VectorDB_search demo_services (JStr ''greek letters'') (JInt 3)) =
     Inr [JStr ''alpha'', JStr ''gamma''] \<and>
   fst (VectorDB_search down_services (JStr ''greek letters'') (JInt 3)) = Inr []"
  using search_above_threshold [of demo_services "JStr ''greek letters''" "JInt 3"]
    search_above_threshold [of down_services "JStr ''greek letters''" "JInt 3"]
    demo_no_raise demo_texts
  by (simp add: demo_services_def down_services_def is_configured_def)

lemma add_knowledge_upsert_id:
  "Upsert r \<in> set (snd (VectorDB_add_knowledge lib sv text metadata)) \<Longrightarrow>
     generate_id lib text = Inr (rec_id r)"
  by (auto simp: VectorDB_add_knowledge_def Let_def split: if_splits sum.splits)

lemma add_knowledge_submits:
  assumes "index_present sv" "text = JStr s" "str_encode lib s = Inr bytes"
    "encode sv text = Inr embedding" "metadata = JObj kvs \<or> \<not> truthy metadata \<and> kvs = []"
  shows "VectorDB_add_knowledge lib sv text metadata =
     (Inr (\<not> isl (index_upsert sv
              \<lparr>rec_id = md5_hexdigest lib bytes, rec_values = embedding,
               rec_metadata = JObj (AList.update ''text'' text kvs)\<rparr>)),
      [Encode text,
       Upsert \<lparr>rec_id = md5_hexdigest lib bytes, rec_values = embedding,
               rec_metadata = JObj (AList.update ''text'' text kvs)\<rparr>])"
proof -
  from assms(5) have "(if truthy metadata then metadata else JObj []) = JObj kvs"
    by (cases kvs) auto
  with assms(1-4) show ?thesis
    by (simp add: VectorDB_add_knowledge_def Let_def split: sum.splits)
qed

text \<open>
  C4. The identifier of a record that \<^verbatim>\<open>add_knowledge\<close> submits is the digest of the
  encoded text and depends on nothing else: two calls with the same text submit records
  with the same identifier, whatever their metadata and whatever the services answer. And
  a record is submitted: with an index, a text that can be encoded, an embedding and
  metadata that is a dict or empty, the call embeds the text and upserts one record, whose
  identifier is that digest and whose metadata is the caller's with \<^verbatim>\<open>text\<close> set.
\<close>

theorem add_knowledge_id_from_text:
  "(\<forall>sv metadata r.
      Upsert r \<in> set (snd (VectorDB_add_knowledge lib sv text metadata)) \<longrightarrow>
      generate_id lib text = Inr (rec_id r)) \<and>
   (\<forall>sv1 metadata1 r1 sv2 metadata2 r2.
      Upsert r1 \<in> set (snd (VectorDB_add_knowledge lib sv1 text metadata1)) \<and>
      Upsert r2 \<in> set (snd (VectorDB_add_knowledge lib sv2 text metadata2)) \<longrightarrow>
      rec_id r1 = rec_id r2) \<and>
   (\<forall>sv metadata s bytes embedding kvs.
      index_present sv \<and> text = JStr s \<and> str_encode lib s = Inr bytes \<and>
      encode sv text = Inr embedding \<and>
      (metadata = JObj kvs \<or> \<not> truthy metadata \<and> kvs = []) \<longrightarrow>
      snd (VectorDB_add_knowledge lib sv text metadata) =
        [Encode text,
         Upsert \<lparr>rec_id = md5_hexdigest lib bytes, rec_values = embedding,
                 rec_metadata = JObj (AList.update ''text'' text kvs)\<rparr>] \<and>
      fst (VectorDB_add_knowledge lib sv text metadata) =
        Inr (\<not> isl (index_upsert sv
               \<lparr>rec_id = md5_hexdigest lib bytes, rec_values = embedding,
                rec_metadata = JObj (AList.update ''text'' text kvs)\<rparr>)))"
proof -
  have A: "generate_id lib text = Inr (rec_id r)"
    if "Upsert r \<in> set (snd (VectorDB_add_knowledge lib sv text metadata))" for sv metadata r
    using that by (rule add_knowledge_upsert_id)
  have B: "rec_id r1 = rec_id r2"
    if "Upsert r1 \<in> set (snd (VectorDB_add_knowledge lib sv1 text metadata1)) \<and>
        Upsert r2 \<in> set (snd (VectorDB_add_knowledge lib sv2 text metadata2))"
    for sv1 metadata1 r1 sv2 metadata2 r2
  proof -
    from that have "generate_id lib text = Inr (rec_id r1)" "generate_id lib text = Inr (rec_id r2)"
      by (auto dest: add_knowledge_upsert_id)
    then show ?thesis by simp
  qed
  have C: "snd (VectorDB_add_knowledge lib sv text metadata) =
        [Encode text,
         Upsert \<lparr>rec_id = md5_hexdigest lib bytes, rec_values = embedding,
                 rec_metadata = JObj (AList.update ''text'' text kvs)\<rparr>] \<and>
      fst (VectorDB_add_knowledge lib sv text metadata) =
        Inr (\<not> isl (index_upsert sv
               \<lparr>rec_id = md5_hexdigest lib bytes, rec_values = embedding,
                rec_metadata = JObj (AList.update ''text'' text kvs)\<rparr>))"
    if "index_present sv \<and> text = JStr s \<and> str_encode lib s = Inr bytes \<and>
      encode sv text = Inr embedding \<and>
      (metadata = JObj kvs \<or> \<not> truthy metadata \<and> kvs = [])"
    for sv metadata s bytes embedding kvs
  proof -
    from that have "VectorDB_add_knowledge lib sv text metadata =
     (Inr (\<not> isl (index_upsert sv
              \<lparr>rec_id = md5_hexdigest lib bytes, rec_values = embedding,
               rec_metadata = JObj (AList.update ''text'' text kvs)\<rparr>)),
      [Encode text,
       Upsert \<lparr>rec_id = md5_hexdigest lib bytes, rec_values = embedding,
               rec_metadata = JObj (AList.update ''text'' text kvs)\<rparr>])"
      by (intro add_knowledge_submits [of sv _ s]) blast+
    then show ?thesis by simp
  qed
  show ?thesis
  proof (intro conjI allI impI)
    fix sv metadata r
    assume "Upsert r \<in> set (snd (VectorDB_add_knowledge lib sv text metadata))"
    then show "generate_id lib text = Inr (rec_id r)" by (rule A)
  next
    fix sv1 metadata1 r1 sv2 metadata2 r2
    assume "Upsert r1 \<in> set (snd (VectorDB_add_knowledge lib sv1 text metadata1)) \<and>
        Upsert r2 \<in> set (snd (VectorDB_add_knowledge lib sv2 text metadata2))"
    then show "rec_id r1 = rec_id r2" by (rule B)
  next
    fix sv :: services and metadata s bytes embedding kvs
    assume h: "index_present sv \<and> text = JStr s \<and> str_encode lib s = Inr bytes \<and>
      encode sv text = Inr embedding \<and>
      (metadata = JObj kvs \<or> \<not> truthy metadata \<and> kvs = [])"
    from C [OF h] show "snd (VectorDB_add_knowledge lib sv text metadata) =
        [Encode text,
         Upsert \<lparr>rec_id = md5_hexdigest lib bytes, rec_values = embedding,
                 rec_metadata = JObj (AList.update ''text'' text kvs)\<rparr>]" by simp
    from C [OF h] show "fst (VectorDB_add_knowledge lib sv text metadata) =
        Inr (\<not> isl (index_upsert sv
               \<lparr>rec_id = md5_hexdigest lib bytes, rec_values = embedding,
                rec_metadata = JObj (AList.update ''text'' text kvs)\<rparr>))" by simp
  qed
qed

theorem add_knowledge_id_from_text_witness:
  "snd (VectorDB_add_knowledge demo_lib demo_services (JStr ''hello'')
          (JObj [(''topic'', JStr ''greeting'')])) =
     [Encode (JStr ''hello''),
      Upsert \<lparr>rec_id = ''5d41402abc4b2a76b9719d911017c592'', rec_values = [1, 0],
              rec_metadata = JObj [(''topic'', JStr ''greeting''), (''text'', JStr ''hello'')]\<rparr>] \<and>
   snd (VectorDB_add_knowledge demo_lib demo_services (JStr ''hello'') JNull) =
     [Encode (JStr ''hello''),
      Upsert \<lparr>rec_id = ''5d41402abc4b2a76b9719d911017c592'', rec_values = [1, 0],
              rec_metadata = JObj [(''text'', JStr ''hello'')]\<rparr>] \<and>
   fst (VectorDB_add_knowledge demo_lib demo_services (JStr ''hello'') JNull) = Inr True"
proof -
  note t = add_knowledge_id_from_text [of demo_lib "JStr ''hello''",
      THEN conjunct2, THEN conjunct2, rule_format]
  have tagged: "index_present demo_services \<and> JStr ''hello'' = JStr ''hello'' \<and>
      str_encode demo_lib ''hello'' = Inr ''hello'' \<and>
      encode demo_services (JStr ''hello'') = Inr [1, 0] \<and>
      (JObj [(''topic'', JStr ''greeting'')] = JObj [(''topic'', JStr ''greeting'')] \<or>
       \<not> truthy (JObj [(''topic'', JStr ''greeting'')]) \<and> [(''topic'', JStr ''greeting'')] = [])"
    by (simp add: demo_services_def demo_lib_def)
  have plain: "index_present demo_services \<and> JStr ''hello'' = JStr ''hello'' \<and>
      str_encode demo_lib ''hello'' = Inr ''hello'' \<and>
      encode demo_services (JStr ''hello'') = Inr [1, 0] \<and>
      (JNull = JObj [] \<or> \<not> truthy JNull \<and> ([] :: (string \<times> json) list) = [])"
    by (simp add: demo_services_def demo_lib_def)
  from t [OF tagged] t [OF plain] show ?thesis
    by (simp add: demo_services_def demo_lib_def)
qed

section \<open>Properties of the knowledge endpoints\<close>

text \<open>
  C5. When the retrieval gateway is not configured, a request to \<^verbatim>\<open>POST /api/knowledge\<close>
  or to \<^verbatim>\<open>POST /api/knowledge/search\<close> that passes the validation of its body is answered
  with status 503, and neither endpoint invokes the embedding function, whatever the body.
\<close>

theorem knowledge_endpoints_not_configured:
  assumes "\<not> is_configured sv"
  shows "(passes_validation ''text'' data \<longrightarrow>
           (\<exists>r. fst (add_knowledge lib sv data) = Inr r \<and> status r = 503)) \<and>
         (passes_validation ''query'' data \<longrightarrow>
           (\<exists>r. fst (search_knowledge sv data) = Inr r \<and> status r = 503)) \<and>
         \<not> (\<exists>c\<in>set (snd (add_knowledge lib sv data)). is_encode c) \<and>
         \<not> (\<exists>c\<in>set (snd (search_knowledge sv data)). is_encode c)"
proof (intro conjI impI)
  show "\<exists>r. fst (add_knowledge lib sv data) = Inr r \<and> status r = 503"
    if "passes_validation ''text'' data"
    using that assms
    by (simp add: add_knowledge_def passes_validation_def not_configured_response_def)
  show "\<exists>r. fst (search_knowledge sv data) = Inr r \<and> status r = 503"
    if "passes_validation ''query'' data"
    using that assms
    by (simp add: search_knowledge_def passes_validation_def not_configured_response_def)
  have "snd (add_knowledge lib sv data) = []"
    using assms by (simp add: add_knowledge_def split: sum.splits bool.splits)
  then show "\<not> (\<exists>c\<in>set (snd (add_knowledge lib sv data)). is_encode c)" by simp
  have "snd (search_knowledge sv data) = []"
    using assms by (simp add: search_knowledge_def split: sum.splits bool.splits)
  then show "\<not> (\<exists>c\<in>set (snd (search_knowledge sv data)). is_encode c)" by simp
qed

theorem knowledge_endpoints_not_configured_witness:
  "http_status (fst (add_knowledge demo_lib down_services
       (JObj [(''text'', JStr ''hello''), (''query'', JStr ''hello'')]))) = 503 \<and>
   http_status (fst (search_knowledge down_services
       (JObj [(''text'', JStr ''hello''), (''query'', JStr ''hello'')]))) = 503"
  using knowledge_endpoints_not_configured [of down_services
      "JObj [(''text'', JStr ''hello''), (''query'', JStr ''hello'')]" demo_lib]
  by (auto simp: passes_validation_def is_configured_def down_services_def)

section \<open>The chat handler, case by case\<close>

lemma retrieve_context_calls:
  "c \<in> set (snd (retrieve_context sv uk um)) \<Longrightarrow> \<not> is_complete c"
  by (auto simp: retrieve_context_def VectorDB_search_def split: if_splits sum.splits prod.splits)

lemma chat_session_outcomes:
  obtains (raised) e c1 where
      "chat_session sv um sid k uk cs = (Inl e, cs(k \<mapsto> history_of cs k), c1)"
      "\<forall>c\<in>set c1. \<not> is_complete c"
  | (answered) ctx c1 reply where
      "chat_session sv um sid k uk cs =
         (Inr \<lparr>status = 200,
               body = JObj [(''response'', reply), (''context_used'', JBool (ctx \<noteq> None)),
                            (''session_id'', sid)]\<rparr>,
          cs(k \<mapsto> last_n 20 (history_of cs k @
                 [\<lparr>role = User, content = um\<rparr>, \<lparr>role = Assistant, content = reply\<rparr>])),
          c1 @ [Complete (build_messages um ctx (Some (last_n 10 (history_of cs k))))])"
      "\<forall>c\<in>set c1. \<not> is_complete c"
      "fst (LLMClient_chat sv um ctx (Some (last_n 10 (history_of cs k)))) = Inr reply"
proof -
  obtain r c1 where rc: "retrieve_context sv uk um = (r, c1)"
    by (cases "retrieve_context sv uk um")
  then have c1: "\<forall>c\<in>set c1. \<not> is_complete c"
    using retrieve_context_calls [of _ sv uk um] by auto
  have cs1: "(if cs k = None then cs(k \<mapsto> []) else cs) = cs(k \<mapsto> history_of cs k)"
    by (auto simp: history_of_def fun_upd_idem split: option.splits)
  have h1: "(case (cs(k \<mapsto> history_of cs k)) k of None \<Rightarrow> [] | Some h \<Rightarrow> h) = history_of cs k"
    by simp
  show thesis
  proof (cases r)
    case (Inl e)
    with rc have "chat_session sv um sid k uk cs = (Inl e, cs(k \<mapsto> history_of cs k), c1)"
      unfolding chat_session_def cs1 Let_def h1 by simp
    then show thesis using c1 by (rule raised)
  next
    case (Inr ctx)
    let ?ms = "build_messages um ctx (Some (last_n 10 (history_of cs k)))"
    obtain reply where reply:
      "LLMClient_chat sv um ctx (Some (last_n 10 (history_of cs k))) = (Inr reply, [Complete ?ms])"
      by (cases "completions_create sv ?ms") (auto simp: LLMClient_chat_def Let_def)
    with rc Inr have "chat_session sv um sid k uk cs =
         (Inr \<lparr>status = 200,
               body = JObj [(''response'', reply), (''context_used'', JBool (ctx \<noteq> None)),
                            (''session_id'', sid)]\<rparr>,
          cs(k \<mapsto> last_n 20 (history_of cs k @
                 [\<lparr>role = User, content = um\<rparr>, \<lparr>role = Assistant, content = reply\<rparr>])),
          c1 @ [Complete ?ms])"
      unfolding chat_session_def cs1 Let_def h1 by (simp add: last_n_def)
    then show thesis using c1 reply by (intro answered) auto
  qed
qed

lemma chat_rejected:
  "rejected ''message'' data \<Longrightarrow>
     chat sv data cs =
       (Inr \<lparr>status = 400, body = JObj [(''error'', JStr ''Message is required'')]\<rparr>, cs, [])"
  by (cases data) (auto simp: chat_def split: bool.splits)

lemma chat_not_object:
  "\<forall>kvs. data \<noteq> JObj kvs \<Longrightarrow> \<exists>out. chat sv data cs = (out, cs, []) \<and> http_status out \<noteq> 200"
  by (cases data) (auto simp: chat_def split: bool.splits)

lemma chat_object_with:
  assumes "map_of kvs ''message'' = Some um"
  shows "chat sv (JObj kvs) cs =
     (case hash_key (case map_of kvs ''session_id'' of None \<Rightarrow> JStr ''default'' | Some v \<Rightarrow> v) of
        Inl e \<Rightarrow> (Inl e, cs, [])
      | Inr k \<Rightarrow>
          chat_session sv um
            (case map_of kvs ''session_id'' of None \<Rightarrow> JStr ''default'' | Some v \<Rightarrow> v) k
            (case map_of kvs ''use_knowledge'' of None \<Rightarrow> JBool True | Some v \<Rightarrow> v) cs)"
proof -
  from assms have "(''message'', um) \<in> set kvs" by (rule map_of_SomeD)
  then have "''message'' \<in> fst ` set kvs" "kvs \<noteq> []" by force+
  with assms show ?thesis by (simp add: chat_def)
qed

lemma chat_outcomes:
  obtains (untouched) out where
      "chat sv data cs = (out, cs, [])" "http_status out \<noteq> 200"
  | (raised) kvs um sid k e c1 where
      "data = JObj kvs" "map_of kvs ''message'' = Some um"
      "py_get data ''session_id'' (JStr ''default'') = Inr sid" "hash_key sid = Inr k"
      "chat sv data cs = (Inl e, cs(k \<mapsto> history_of cs k), c1)"
      "\<forall>c\<in>set c1. \<not> is_complete c"
  | (answered) kvs um sid k ctx c1 reply where
      "data = JObj kvs" "map_of kvs ''message'' = Some um"
      "py_get data ''session_id'' (JStr ''default'') = Inr sid" "hash_key sid = Inr k"
      "chat sv data cs =
         (Inr \<lparr>status = 200,
               body = JObj [(''response'', reply), (''context_used'', JBool (ctx \<noteq> None)),
                            (''session_id'', sid)]\<rparr>,
          cs(k \<mapsto> last_n 20 (history_of cs k @
                 [\<lparr>role = User, content = um\<rparr>, \<lparr>role = Assistant, content = reply\<rparr>])),
          c1 @ [Complete (build_messages um ctx (Some (last_n 10 (history_of cs k))))])"
      "\<forall>c\<in>set c1. \<not> is_complete c"
      "fst (LLMClient_chat sv um ctx (Some (last_n 10 (history_of cs k)))) = Inr reply"
proof (cases "\<exists>kvs. data = JObj kvs")
  case False
  then obtain out where "chat sv data cs = (out, cs, [])" "http_status out \<noteq> 200"
    using chat_not_object [of data sv cs] by auto
  then show thesis by (rule untouched)
next
  case True
  then obtain kvs where data: "data = JObj kvs" by blast
  show thesis
  proof (cases "map_of kvs ''message''")
    case None
    then have "rejected ''message'' data"
      by (simp add: data map_of_eq_None_iff)
    then have "chat sv data cs =
       (Inr \<lparr>status = 400, body = JObj [(''error'', JStr ''Message is required'')]\<rparr>, cs, [])"
      by (rule chat_rejected)
    then show thesis by (rule untouched) simp
  next
    case (Some um)
    let ?sid = "case map_of kvs ''session_id'' of None \<Rightarrow> JStr ''default'' | Some v \<Rightarrow> v"
    let ?uk = "case map_of kvs ''use_knowledge'' of None \<Rightarrow> JBool True | Some v \<Rightarrow> v"
    have sid: "py_get data ''session_id'' (JStr ''default'') = Inr ?sid"
      by (simp add: data)
    note c = chat_object_with [OF Some, of sv cs]
    show thesis
    proof (cases "hash_key ?sid")
      case (Inl e)
      with c have "chat sv data cs = (Inl e, cs, [])" by (simp add: data)
      then show thesis by (rule untouched) simp
    next
      case (Inr k)
      with c have ck: "chat sv data cs = chat_session sv um ?sid k ?uk cs"
        by (simp add: data)
      show thesis
      proof (rule chat_session_outcomes [of sv um ?sid k ?uk cs])
        fix e c1
        assume "chat_session sv um ?sid k ?uk cs = (Inl e, cs(k \<mapsto> history_of cs k), c1)"
          "\<forall>c\<in>set c1. \<not> is_complete c"
        with ck data Some sid Inr show thesis by (intro raised [of kvs um ?sid k e c1]) simp_all
      next
        fix ctx c1 reply
        assume "chat_session sv um ?sid k ?uk cs =
         (Inr \<lparr>status = 200,
               body = JObj [(''response'', reply), (''context_used'', JBool (ctx \<noteq> None)),
                            (''session_id'', ?sid)]\<rparr>,
          cs(k \<mapsto> last_n 20 (history_of cs k @
                 [\<lparr>role = User, content = um\<rparr>, \<lparr>role = Assistant, content = reply\<rparr>])),
          c1 @ [Complete (build_messages um ctx (Some (last_n 10 (history_of cs k))))])"
          "\<forall>c\<in>set c1. \<not> is_complete c"
          "fst (LLMClient_chat sv um ctx (Some (last_n 10 (history_of cs k)))) = Inr reply"
        with ck data Some sid Inr show thesis
          by (intro answered [of kvs um ?sid k reply ctx c1]) simp_all
      qed
    qed
  qed
qed

section \<open>Validation of the chat request\<close>

lemma lacks_field_cases:
  assumes "lacks_field k data"
  obtains (not_object) "\<forall>kvs. data \<noteq> JObj kvs" | (without) kvs where "data = JObj kvs" "k \<notin> fst ` set kvs"
  using assms by (cases data) (auto simp: lacks_field_def)

text \<open>
  A body without the field never reaches the completion service and leaves the session
  dict as it was, whatever it is.
\<close>

lemma chat_without_message_no_effect:
  assumes "lacks_field ''message'' data"
  shows "snd (chat sv data cs) = (cs, [])"
  using assms
proof (cases rule: lacks_field_cases)
  case not_object
  then obtain out where "chat sv data cs = (out, cs, [])"
    using chat_not_object [of data sv cs] by blast
  then show ?thesis by simp
next
  case (without kvs)
  then have "rejected ''message'' data" by simp
  then have "chat sv data cs =
     (Inr \<lparr>status = 400, body = JObj [(''error'', JStr ''Message is required'')]\<rparr>, cs, [])"
    by (rule chat_rejected)
  then show ?thesis by simp
qed

text \<open>
  On an absent body and on an object without \<^verbatim>\<open>message\<close> the handler does all that is
  asked of it: status 400, no call to the completion service, the session dict unchanged.
\<close>

lemma chat_missing_message_rejected:
  assumes "data = JNull \<or> (\<exists>kvs. data = JObj kvs \<and> ''message'' \<notin> fst ` set kvs)"
  shows "http_status (fst (chat sv data cs)) = 400 \<and>
         \<not> (\<exists>c\<in>set (snd (snd (chat sv data cs))). is_complete c) \<and>
         fst (snd (chat sv data cs)) = cs"
proof -
  from assms have "rejected ''message'' data" by auto
  then have "chat sv data cs =
     (Inr \<lparr>status = 400, body = JObj [(''error'', JStr ''Message is required'')]\<rparr>, cs, [])"
    by (rule chat_rejected)
  then show ?thesis by simp
qed

text \<open>
  C6. A request to \<^verbatim>\<open>POST /api/chat\<close> whose body lacks the \<^verbatim>\<open>message\<close> field is to be
  answered with status 400. For the body \<^verbatim>\<open>5\<close> the guard
  \<^verbatim>\<open>not data or 'message' not in data\<close> itself raises \<^verbatim>\<open>TypeError\<close>, and the request is
  answered with status 500, while an object without the field is answered with 400. The
  completion service is not called and the session dict is unchanged in both.
\<close>

theorem chat_number_body_raises:
  "lacks_field ''message'' (JInt 5) \<and>
   chat demo_services (JInt 5) no_sessions =
     (Inl (TypeError ''argument is not iterable''), no_sessions, []) \<and>
   http_status (fst (chat demo_services (JInt 5) no_sessions)) = 500 \<and>
   lacks_field ''message'' (JObj [(''session_id'', JStr ''s1'')]) \<and>
   http_status (fst (chat demo_services (JObj [(''session_id'', JStr ''s1'')]) no_sessions)) = 400"
  by (simp add: lacks_field_def chat_def)

section \<open>Slices and alternation\<close>

lemma length_last_n: "length (last_n n xs) = min n (length xs)"
  by (auto simp: last_n_def)

lemma last_n_last_n_append: "last_n n (last_n n xs @ ys) = last_n n (xs @ ys)"
proof (cases "length xs \<le> n")
  case True
  then show ?thesis by (simp add: last_n_def)
next
  case False
  then have "length xs + length ys - n = length ys + (length xs - n)" by arith
  with False show ?thesis by (simp add: last_n_def)
qed


lemma alternating_append: "alternating xs \<Longrightarrow> alternating ys \<Longrightarrow> alternating (xs @ ys)"
  by (induction xs rule: alternating.induct) auto

lemma alternating_even: "alternating xs \<Longrightarrow> even (length xs)"
  by (induction xs rule: alternating.induct) auto

lemma alternating_drop2: "alternating xs \<Longrightarrow> alternating (drop 2 xs)"
  by (cases xs rule: alternating.cases) auto

lemma alternating_drop_even: "alternating xs \<Longrightarrow> alternating (drop (2 * n) xs)"
proof (induction n)
  case 0
  then show ?case by simp
next
  case (Suc n)
  then have "alternating (drop 2 (drop (2 * n) xs))" by (intro alternating_drop2) simp
  then show ?case by (simp add: add.commute)
qed

lemma alternating_roles: "alternating xs \<Longrightarrow> m \<in> set xs \<Longrightarrow> role m \<noteq> System"
  by (induction xs rule: alternating.induct) auto

lemma last_n_20_pairs:
  assumes "even (length xs)"
  shows "last_n 20 xs = drop (2 * ((length xs - 20) div 2)) xs"
proof -
  from assms have "even (length xs - 20)" by simp
  then show ?thesis by (simp add: last_n_def)
qed

lemma alternating_step:
  assumes "alternating h"
  shows "alternating (last_n 20 (h @ [\<lparr>role = User, content = u\<rparr>, \<lparr>role = Assistant, content = a\<rparr>]))"
proof -
  let ?h' = "h @ [\<lparr>role = User, content = u\<rparr>, \<lparr>role = Assistant, content = a\<rparr>]"
  have alt: "alternating ?h'" using assms by (intro alternating_append) simp_all
  then have "even (length ?h')" by (rule alternating_even)
  then have "last_n 20 ?h' = drop (2 * ((length ?h' - 20) div 2)) ?h'" by (rule last_n_20_pairs)
  with alt show ?thesis by (simp only: alternating_drop_even)
qed

section \<open>The invariant of the session dict\<close>

lemma well_formed_empty: "well_formed no_sessions"
  by (simp add: well_formed_def no_sessions_def)

lemma well_formed_history: "well_formed cs \<Longrightarrow> alternating (history_of cs k) \<and> length (history_of cs k) \<le> 20"
  by (auto simp: well_formed_def history_of_def split: option.splits)

lemma well_formed_upd:
  "well_formed cs \<Longrightarrow> alternating h \<Longrightarrow> length h \<le> 20 \<Longrightarrow> well_formed (cs(k \<mapsto> h))"
  by (auto simp: well_formed_def)

lemma chat_well_formed:
  assumes "well_formed cs"
  shows "well_formed (fst (snd (chat sv data cs)))"
proof (cases rule: chat_outcomes [of sv data cs])
  case (untouched out)
  with assms show ?thesis by simp
next
  case (raised kvs um sid k e c1)
  with assms well_formed_history [OF assms, of k] show ?thesis
    by (simp add: well_formed_upd)
next
  case (answered kvs um sid k ctx c1 reply)
  have "alternating (last_n 20 (history_of cs k @
          [\<lparr>role = User, content = um\<rparr>, \<lparr>role = Assistant, content = reply\<rparr>]))"
    using well_formed_history [OF assms, of k] by (intro alternating_step) simp
  with assms answered show ?thesis
    by (simp add: well_formed_upd length_last_n)
qed

lemma clear_well_formed:
  assumes "well_formed cs"
  shows "well_formed (snd (clear_session data cs))"
  using assms
  by (auto simp: clear_session_def well_formed_def split: sum.splits if_splits)

lemma step_well_formed: "well_formed cs \<Longrightarrow> well_formed (step r cs)"
  by (cases r) (simp_all add: chat_well_formed clear_well_formed)

lemma run_well_formed: "well_formed cs \<Longrightarrow> well_formed (run rs cs)"
  by (induction rs arbitrary: cs) (simp_all add: step_well_formed)


section \<open>Properties of the stored conversations\<close>


lemma demo_chat:
  "chat demo_services hello cs =
     (Inr \<lparr>status = 200,
           body = JObj [(''response'', JStr ''At your service.''), (''context_used'', JBool False),
                        (''session_id'', JStr ''default'')]\<rparr>,
      cs(KStr ''default'' \<mapsto> last_n 20 (history_of cs (KStr ''default'') @ [hello_user, demo_reply])),
      [Complete (build_messages (JStr ''hello'') None
                   (Some (last_n 10 (history_of cs (KStr ''default'')))))])"
  by (simp add: chat_def chat_session_def retrieve_context_def LLMClient_chat_def Let_def
        demo_services_def hello_def hello_user_def demo_reply_def history_of_def last_n_def
        fun_upd_idem split: option.splits)

lemma demo_run1: "run [Chat demo_services hello] no_sessions =
    no_sessions(KStr ''default'' \<mapsto> [hello_user, demo_reply])"
  by (simp add: demo_chat history_of_def no_sessions_def last_n_def)



section \<open>The sliding window of a session\<close>

lemma retains_history: "retains cs k msgs \<Longrightarrow> history_of cs k = last_n 20 msgs"
  by (auto simp: retains_def history_of_def last_n_def split: option.splits)

lemma retains_chat:
  assumes "retains cs k msgs"
  shows "retains (fst (snd (chat sv data cs))) k (msgs @ exchange sv data cs k)"
proof (cases rule: chat_outcomes [of sv data cs])
  case (untouched out)
  then have "exchange sv data cs k = []"
    by (cases out) (auto simp: exchange_def)
  with assms untouched show ?thesis by simp
next
  case (raised kvs um sid k0 e c1)
  then have "exchange sv data cs k = []" by (simp add: exchange_def)
  with assms raised retains_history [OF assms] show ?thesis
    by (auto simp: retains_def)
next
  case (answered kvs um sid k0 ctx c1 reply)
  then have ex: "exchange sv data cs k =
      (if k = k0 then [\<lparr>role = User, content = um\<rparr>, \<lparr>role = Assistant, content = reply\<rparr>]
       else [])"
    by (auto simp: exchange_def field_def)
  show ?thesis
  proof (cases "k = k0")
    case True
    with answered ex retains_history [OF assms] show ?thesis
      by (simp add: retains_def last_n_last_n_append)
  next
    case False
    with answered ex assms show ?thesis by (simp add: retains_def)
  qed
qed

lemma retains_chat_run:
  "retains cs k msgs \<Longrightarrow> retains (chat_run reqs cs) k (msgs @ transcript reqs cs k)"
proof (induction reqs arbitrary: cs msgs)
  case Nil
  then show ?case by simp
next
  case (Cons r reqs)
  obtain sv data where r: "r = (sv, data)" by (cases r)
  from Cons.prems have "retains (fst (snd (chat sv data cs))) k (msgs @ exchange sv data cs k)"
    by (rule retains_chat)
  then have "retains (chat_run reqs (fst (snd (chat sv data cs)))) k
       ((msgs @ exchange sv data cs k) @ transcript reqs (fst (snd (chat sv data cs))) k)"
    by (rule Cons.IH)
  with r show ?case by simp
qed

text \<open>
  C1. After every sequence of chat calls, the stored history of every session has at most
  20 messages and is exactly the last 20 of all the messages exchanged in that session, in
  call order; a session that does not exist has exchanged none.
\<close>

theorem history_is_last_20:
  "(\<forall>h. chat_run reqs no_sessions k = Some h \<longrightarrow>
      length h \<le> 20 \<and> h = last_n 20 (transcript reqs no_sessions k)) \<and>
   (chat_run reqs no_sessions k = None \<longrightarrow> transcript reqs no_sessions k = [])"
proof -
  have "retains no_sessions k []" by (simp add: retains_def no_sessions_def)
  then have "retains (chat_run reqs no_sessions) k ([] @ transcript reqs no_sessions k)"
    by (rule retains_chat_run)
  then show ?thesis
    by (auto simp: retains_def length_last_n split: option.splits)
qed

lemma demo_exchange:
  "exchange demo_services hello cs (KStr ''default'') = [hello_user, demo_reply]"
  unfolding exchange_def demo_chat
  by (simp add: field_def hello_def hello_user_def demo_reply_def)

lemma demo_transcript:
  "transcript (replicate n (demo_services, hello)) cs (KStr ''default'') =
     concat (replicate n [hello_user, demo_reply])"
  by (induction n arbitrary: cs) (simp_all add: demo_exchange)

lemma eleven_transcript:
  "transcript eleven_hellos no_sessions (KStr ''default'') =
     concat (replicate 11 [hello_user, demo_reply])"
  by (simp only: eleven_hellos_def demo_transcript)

lemma last_20_of_22:
  "last_n 20 (concat (replicate 11 [hello_user, demo_reply])) =
     concat (replicate 10 [hello_user, demo_reply])"
  by (simp add: last_n_def numeral_eq_Suc)

theorem history_is_last_20_witness:
  "chat_run eleven_hellos no_sessions (KStr ''default'') =
     Some (concat (replicate 10 [hello_user, demo_reply])) \<and>
   length (transcript eleven_hellos no_sessions (KStr ''default'')) = 22"
proof -
  have len: "length (transcript eleven_hellos no_sessions (KStr ''default'')) = 22"
    by (simp add: eleven_transcript length_concat sum_list_replicate)
  then have "transcript eleven_hellos no_sessions (KStr ''default'') \<noteq> []" by auto
  with history_is_last_20 [of eleven_hellos "KStr ''default''"]
  obtain h where "chat_run eleven_hellos no_sessions (KStr ''default'') = Some h"
    "h = last_n 20 (transcript eleven_hellos no_sessions (KStr ''default''))"
    by (cases "chat_run eleven_hellos no_sessions (KStr ''default'')") auto
  with len show ?thesis by (simp add: eleven_transcript last_20_of_22)
qed

section \<open>The request to the completion service\<close>

lemma build_messages_Some:
  "build_messages um ctx (Some hs) =
     \<lparr>role = System, content = JStr (system_content ctx)\<rparr> # hs @ [\<lparr>role = User, content = um\<rparr>]"
  by (simp add: build_messages_def Let_def)

lemma chat_completion_request:
  assumes "Complete ms \<in> set (snd (snd (chat sv data cs)))"
  obtains sid k ctx reply where
    "py_get data ''session_id'' (JStr ''default'') = Inr sid" "hash_key sid = Inr k"
    "ms = \<lparr>role = System, content = JStr (system_content ctx)\<rparr> #
            last_n 10 (history_of cs k) @ [\<lparr>role = User, content = field ''message'' data\<rparr>]"
    "filter is_complete (snd (snd (chat sv data cs))) = [Complete ms]"
    "fst (chat sv data cs) =
       Inr \<lparr>status = 200,
            body = JObj [(''response'', reply), (''context_used'', JBool (ctx \<noteq> None)),
                         (''session_id'', sid)]\<rparr>"
    "fst (snd (chat sv data cs)) =
       cs(k \<mapsto> last_n 20 (history_of cs k @
            [\<lparr>role = User, content = field ''message'' data\<rparr>,
             \<lparr>role = Assistant, content = reply\<rparr>]))"
    "fst (LLMClient_chat sv (field ''message'' data) ctx (Some (last_n 10 (history_of cs k)))) =
       Inr reply"
proof (cases rule: chat_outcomes [of sv data cs])
  case (untouched out)
  with assms show ?thesis by simp
next
  case (raised kvs um sid k e c1)
  with assms have "is_complete (Complete ms) \<Longrightarrow> False" by auto
  then show ?thesis by simp
next
  case (answered kvs um sid k ctx c1 reply)
  have um: "field ''message'' data = um" using answered(1,2) by (simp add: field_def)
  from answered(5,6) assms
  have ms: "ms = build_messages um ctx (Some (last_n 10 (history_of cs k)))" by auto
  from answered(5,6) have "filter is_complete (snd (snd (chat sv data cs))) =
      [Complete (build_messages um ctx (Some (last_n 10 (history_of cs k))))]"
    by (simp add: filter_empty_conv)
  with ms answered um show ?thesis
    by (intro that [of sid k ctx reply]) (simp_all add: build_messages_Some)
qed

lemma filter_system_history:
  assumes "alternating h"
  shows "filter (\<lambda>m. role m = System) (last_n n h) = []"
proof -
  have "set (last_n n h) \<subseteq> set h" by (simp add: last_n_def set_drop_subset)
  with assms show ?thesis by (auto simp: filter_empty_conv dest: alternating_roles)
qed

text \<open>
  C2. After any sequence of requests, a chat call submits at most one message list to the
  completion service, and that list is one system message, then the last 10 messages of the
  stored history of the session in their stored order (at most 10, none of them a system
  message), then one user message with the message of the request.
\<close>

theorem completion_request_shape:
  assumes "Complete ms \<in> set (snd (snd (chat sv data (run rs no_sessions))))"
  shows "\<exists>ctx sid k.
           py_get data ''session_id'' (JStr ''default'') = Inr sid \<and> hash_key sid = Inr k \<and>
           ms = \<lparr>role = System, content = JStr (system_content ctx)\<rparr> #
                  last_n 10 (history_of (run rs no_sessions) k) @
                  [\<lparr>role = User, content = field ''message'' data\<rparr>] \<and>
           length (last_n 10 (history_of (run rs no_sessions) k)) \<le> 10 \<and>
           length (filter (\<lambda>m. role m = System) ms) = 1 \<and>
           filter is_complete (snd (snd (chat sv data (run rs no_sessions)))) = [Complete ms]"
proof -
  let ?cs = "run rs no_sessions"
  have wf: "well_formed ?cs" by (intro run_well_formed well_formed_empty)
  from assms obtain sid k ctx where
    k: "py_get data ''session_id'' (JStr ''default'') = Inr sid" "hash_key sid = Inr k" and
    ms: "ms = \<lparr>role = System, content = JStr (system_content ctx)\<rparr> #
            last_n 10 (history_of ?cs k) @ [\<lparr>role = User, content = field ''message'' data\<rparr>]" and
    one: "filter is_complete (snd (snd (chat sv data ?cs))) = [Complete ms]"
    by (rule chat_completion_request)
  have "filter (\<lambda>m. role m = System) (last_n 10 (history_of ?cs k)) = []"
    using well_formed_history [OF wf, of k] by (intro filter_system_history) simp
  with ms have "length (filter (\<lambda>m. role m = System) ms) = 1" by simp
  moreover have "length (last_n 10 (history_of ?cs k)) \<le> 10" by (simp add: length_last_n)
  ultimately show ?thesis using k ms one by blast
qed

lemma demo_calls2:
  "snd (snd (chat demo_services hello (run [Chat demo_services hello] no_sessions))) =
     [Complete [\<lparr>role = System, content = JStr (system_content None)\<rparr>,
                hello_user, demo_reply, hello_user]]"
  by (simp add: demo_chat history_of_def no_sessions_def last_n_def build_messages_Some
        hello_user_def)

theorem completion_request_shape_witness:
  "Complete [\<lparr>role = System, content = JStr (system_content None)\<rparr>,
             hello_user, demo_reply, hello_user]
     \<in> set (snd (snd (chat demo_services hello (run [Chat demo_services hello] no_sessions)))) \<and>
   length (filter (\<lambda>m. role m = System)
     [\<lparr>role = System, content = JStr (system_content None)\<rparr>,
      hello_user, demo_reply, hello_user]) = 1"
proof -
  have h: "Complete [\<lparr>role = System, content = JStr (system_content None)\<rparr>,
             hello_user, demo_reply, hello_user]
     \<in> set (snd (snd (chat demo_services hello (run [Chat demo_services hello] no_sessions))))"
    by (simp only: demo_calls2) simp
  from completion_request_shape [OF h] h show ?thesis by blast
qed

section \<open>Clearing a session\<close>

lemma requested_session_named:
  "requested_session data =
     (case session_named data of
        None \<Rightarrow> Inl (AttributeError ''object has no attribute get'')
      | Some sid \<Rightarrow> Inr sid)"
  by (cases data) (auto simp: requested_session_def)

lemma clear_session_named:
  assumes "session_named data = Some sid" "hash_key sid = Inr k"
  shows "snd (clear_session data cs) = cs(k := None)"
  using assms by (auto simp: clear_session_def requested_session_named)

lemma clear_session_unnamed:
  assumes "\<forall>sid k. \<not> (session_named data = Some sid \<and> hash_key sid = Inr k)"
  shows "snd (clear_session data cs) = cs"
  using assms
  by (auto simp: clear_session_def requested_session_named split: sum.splits option.splits)

lemma py_get_session_named:
  "py_get data ''session_id'' (JStr ''default'') = Inr sid \<Longrightarrow> session_named data = Some sid"
  by (cases data) auto

text \<open>
  C8. \<^verbatim>\<open>POST /api/session/clear\<close> removes the session that its body names, the
  \<^verbatim>\<open>session_id\<close> of the body or the default session, and leaves every other session as it
  was; when that session does not exist, or the body names none, nothing changes. A chat
  call that follows and names the cleared session submits only the system message and its
  own user message to the completion service.
\<close>

theorem clear_session_forgets:
  "(\<forall>sid k. session_named data = Some sid \<and> hash_key sid = Inr k \<longrightarrow>
      snd (clear_session data cs) k = None \<and>
      (\<forall>k'. k' \<noteq> k \<longrightarrow> snd (clear_session data cs) k' = cs k') \<and>
      (cs k = None \<longrightarrow> snd (clear_session data cs) = cs) \<and>
      (\<forall>sv data2 sid2 ms.
         session_named data2 = Some sid2 \<and> hash_key sid2 = Inr k \<and>
         Complete ms \<in> set (snd (snd (chat sv data2 (snd (clear_session data cs))))) \<longrightarrow>
         (\<exists>ctx. ms = [\<lparr>role = System, content = JStr (system_content ctx)\<rparr>,
                       \<lparr>role = User, content = field ''message'' data2\<rparr>]))) \<and>
   ((\<forall>sid k. \<not> (session_named data = Some sid \<and> hash_key sid = Inr k)) \<longrightarrow>
      snd (clear_session data cs) = cs) \<and>
   (\<forall>kvs sid k. data = JObj kvs \<and> map_of kvs ''session_id'' = Some sid \<and> hash_key sid = Inr k \<longrightarrow>
      snd (clear_session data cs) = cs(k := None)) \<and>
   (\<forall>kvs. data = JNull \<or> data = JObj kvs \<and> map_of kvs ''session_id'' = None \<longrightarrow>
      snd (clear_session data cs) = cs(KStr ''default'' := None))"
proof -
  have A: "snd (clear_session data cs) k = None \<and>
      (\<forall>k'. k' \<noteq> k \<longrightarrow> snd (clear_session data cs) k' = cs k') \<and>
      (cs k = None \<longrightarrow> snd (clear_session data cs) = cs) \<and>
      (\<forall>sv data2 sid2 ms.
         session_named data2 = Some sid2 \<and> hash_key sid2 = Inr k \<and>
         Complete ms \<in> set (snd (snd (chat sv data2 (snd (clear_session data cs))))) \<longrightarrow>
         (\<exists>ctx. ms = [\<lparr>role = System, content = JStr (system_content ctx)\<rparr>,
                       \<lparr>role = User, content = field ''message'' data2\<rparr>]))"
    if h: "session_named data = Some sid \<and> hash_key sid = Inr k" for sid k
  proof -
    let ?cs' = "snd (clear_session data cs)"
    from h have cs': "?cs' = cs(k := None)" by (intro clear_session_named) auto
    have "\<exists>ctx. ms = [\<lparr>role = System, content = JStr (system_content ctx)\<rparr>,
                       \<lparr>role = User, content = field ''message'' data2\<rparr>]"
      if c: "session_named data2 = Some sid2 \<and> hash_key sid2 = Inr k \<and>
         Complete ms \<in> set (snd (snd (chat sv data2 ?cs')))" for sv data2 sid2 ms
    proof -
      from c have "Complete ms \<in> set (snd (snd (chat sv data2 ?cs')))" by simp
      then obtain sid3 k3 ctx where
        k3: "py_get data2 ''session_id'' (JStr ''default'') = Inr sid3" "hash_key sid3 = Inr k3" and
        ms: "ms = \<lparr>role = System, content = JStr (system_content ctx)\<rparr> #
            last_n 10 (history_of ?cs' k3) @ [\<lparr>role = User, content = field ''message'' data2\<rparr>]"
        by (rule chat_completion_request)
      from k3(1) have "session_named data2 = Some sid3" by (rule py_get_session_named)
      with k3 c have "k3 = k" by simp
      then have "history_of ?cs' k3 = []" by (simp add: cs' history_of_def)
      with ms have "ms = [\<lparr>role = System, content = JStr (system_content ctx)\<rparr>,
                       \<lparr>role = User, content = field ''message'' data2\<rparr>]"
        by (simp add: last_n_def)
      then show ?thesis by blast
    qed
    then have C: "\<forall>sv data2 sid2 ms.
         session_named data2 = Some sid2 \<and> hash_key sid2 = Inr k \<and>
         Complete ms \<in> set (snd (snd (chat sv data2 ?cs'))) \<longrightarrow>
         (\<exists>ctx. ms = [\<lparr>role = System, content = JStr (system_content ctx)\<rparr>,
                       \<lparr>role = User, content = field ''message'' data2\<rparr>])"
      by blast
    from cs' have "?cs' k = None" "\<forall>k'. k' \<noteq> k \<longrightarrow> ?cs' k' = cs k'" by simp_all
    moreover from cs' have "cs k = None \<longrightarrow> ?cs' = cs" by auto
    ultimately show ?thesis using C by (intro conjI)
  qed
  have B: "snd (clear_session data cs) = cs"
    if "\<forall>sid k. \<not> (session_named data = Some sid \<and> hash_key sid = Inr k)"
    using that by (rule clear_session_unnamed)
  have D: "snd (clear_session data cs) = cs(k := None)"
    if "data = JObj kvs \<and> map_of kvs ''session_id'' = Some sid \<and> hash_key sid = Inr k"
    for kvs sid k
    using that by (intro clear_session_named [of data sid]) auto
  have E: "snd (clear_session data cs) = cs(KStr ''default'' := None)"
    if "data = JNull \<or> data = JObj kvs \<and> map_of kvs ''session_id'' = None" for kvs
    using that by (intro clear_session_named [of data "JStr ''default''"]) auto
  from A B D E show ?thesis by blast
qed

lemma s1_chat:
  "chat demo_services s1_request cs =
     (Inr \<lparr>status = 200,
           body = JObj [(''response'', JStr ''At your service.''), (''context_used'', JBool False),
                        (''session_id'', JStr ''s1'')]\<rparr>,
      cs(KStr ''s1'' \<mapsto> last_n 20 (history_of cs (KStr ''s1'') @ [hello_user, demo_reply])),
      [Complete (build_messages (JStr ''hello'') None
                   (Some (last_n 10 (history_of cs (KStr ''s1'')))))])"
  by (simp add: chat_def chat_session_def retrieve_context_def LLMClient_chat_def Let_def
        demo_services_def s1_request_def hello_user_def demo_reply_def history_of_def last_n_def
        fun_upd_idem split: option.splits)

lemma s1_stored:
  "run [Chat demo_services s1_request] no_sessions (KStr ''s1'') = Some [hello_user, demo_reply]"
  by (simp add: s1_chat no_sessions_def history_of_def last_n_def)

theorem clear_session_forgets_witness:
  "snd (clear_session s1_clear (run [Chat demo_services s1_request] no_sessions)) (KStr ''s1'') = None \<and>
   snd (clear_session other_clear (run [Chat demo_services s1_request] no_sessions)) (KStr ''s1'') =
     Some [hello_user, demo_reply] \<and>
   snd (snd (chat demo_services s1_request
     (snd (clear_session s1_clear (run [Chat demo_services s1_request] no_sessions))))) =
     [Complete [\<lparr>role = System, content = JStr (system_content None)\<rparr>, hello_user]]"
proof -
  let ?cs = "run [Chat demo_services s1_request] no_sessions"
  have n: "session_named s1_clear = Some (JStr ''s1'') \<and> hash_key (JStr ''s1'') = Inr (KStr ''s1'')"
    by (simp add: s1_clear_def)
  have o: "session_named other_clear = Some (JStr ''other'') \<and>
           hash_key (JStr ''other'') = Inr (KStr ''other'')"
    by (simp add: other_clear_def)
  note t1 = clear_session_forgets [of s1_clear ?cs, THEN conjunct1, rule_format, OF n]
  note t2 = clear_session_forgets [of other_clear ?cs, THEN conjunct1, rule_format, OF o]
  from t1 have gone: "snd (clear_session s1_clear ?cs) (KStr ''s1'') = None" by simp
  from t2 have "snd (clear_session other_clear ?cs) (KStr ''s1'') = ?cs (KStr ''s1'')" by simp
  then have kept: "snd (clear_session other_clear ?cs) (KStr ''s1'') = Some [hello_user, demo_reply]"
    by (simp only: s1_stored)
  have c: "Complete (build_messages (JStr ''hello'') None
              (Some (last_n 10 (history_of (snd (clear_session s1_clear ?cs)) (KStr ''s1'')))))
      \<in> set (snd (snd (chat demo_services s1_request (snd (clear_session s1_clear ?cs)))))"
    by (simp only: s1_chat) simp
  have r: "session_named s1_request = Some (JStr ''s1'') \<and> hash_key (JStr ''s1'') = Inr (KStr ''s1'') \<and>
      Complete (build_messages (JStr ''hello'') None
              (Some (last_n 10 (history_of (snd (clear_session s1_clear ?cs)) (KStr ''s1'')))))
      \<in> set (snd (snd (chat demo_services s1_request (snd (clear_session s1_clear ?cs)))))"
    using c by (simp add: s1_request_def)
  note later = t1 [THEN conjunct2, THEN conjunct2, THEN conjunct2]
  from later [rule_format, OF r] obtain ctx where
    "build_messages (JStr ''hello'') None
       (Some (last_n 10 (history_of (snd (clear_session s1_clear ?cs)) (KStr ''s1'')))) =
     [\<lparr>role = System, content = JStr (system_content ctx)\<rparr>,
      \<lparr>role = User, content = field ''message'' s1_request\<rparr>]"
    by blast
  then have "last_n 10 (history_of (snd (clear_session s1_clear ?cs)) (KStr ''s1'')) = []"
    by (simp add: build_messages_Some)
  then have "snd (snd (chat demo_services s1_request (snd (clear_session s1_clear ?cs)))) =
     [Complete [\<lparr>role = System, content = JStr (system_content None)\<rparr>, hello_user]]"
    by (simp add: s1_chat build_messages_Some hello_user_def)
  with gone kept show ?thesis by simp
qed

section \<open>Failures of the completion service in the history\<close>

















end
